theory Spec2Isabelle
  imports Complex_Main "HOL-Library.Word" "HOL-Library.Log_Nat"
begin

unbundle bit_operations_syntax

section \<open>Single-precision arithmetic of the main loop\<close>

text \<open>
  The variables \<open>resultV_0\<close>, \<open>resultV_1\<close> and \<open>product_result\<close> of \<open>main\<close> are
  \<open>float32_t\<close>. A finite binary32 value is the real number it denotes; a product is the
  exact real product rounded to the nearest binary32 value, ties to even (24 significant
  bits, least exponent \<open>-126\<close>, so that the subnormal spacing is \<open>2 powi -149\<close>). The exponent
  range is left unbounded above: a product beyond the largest finite binary32 value is far
  outside the range of \<open>int\<close>, where the conversion of line 181 is undefined anyway.
\<close>

definition round_half_even :: "real \<Rightarrow> int" where
  "round_half_even t =
     (let f = \<lfloor>t\<rfloor>; d = t - of_int f
      in if d < 1 / 2 then f
         else if 1 / 2 < d then f + 1
         else if even f then f else f + 1)"

definition f32_exponent :: "real \<Rightarrow> int" where
  "f32_exponent x = max (- 126) (int (floorlog 2 (nat \<lfloor>\<bar>x\<bar> * 2 ^ 149\<rfloor>)) - 150)"

definition f32_round :: "real \<Rightarrow> real" where
  "f32_round x =
     (let q = 2 powi (f32_exponent x - 23)
      in of_int (round_half_even (x / q)) * q)"

definition f32_mul :: "real \<Rightarrow> real \<Rightarrow> real" where
  "f32_mul a b = f32_round (a * b)"

text \<open>
  The cast \<open>(int)\<close> of a floating value discards the fractional part (truncation toward
  zero); C leaves it undefined when the integral part is not a value of \<open>int\<close> (32 bits
  on the target), which is \<open>None\<close> here.
\<close>

definition c_trunc :: "real \<Rightarrow> int" where
  "c_trunc x = (if 0 \<le> x then \<lfloor>x\<rfloor> else \<lceil>x\<rceil>)"

definition float_to_int :: "real \<Rightarrow> int option" where
  "float_to_int x =
     (let t = c_trunc x
      in if - (2 ^ 31) \<le> t \<and> t < 2 ^ 31 then Some t else None)"

text \<open>Line 61: \<open>#define SCALING_FACTOR 372\<close>.\<close>

definition SCALING_FACTOR :: int where
  "SCALING_FACTOR = 372"

text \<open>Line 54: the values of the CTDAC next value register are 0 to 4095.\<close>

definition CTDAC_MAX_CODE :: int where
  "CTDAC_MAX_CODE = 4095"

text \<open>
  Line 181: the argument \<open>(int)(product_result*SCALING_FACTOR)\<close> of \<open>Cy_CTDAC_SetValue\<close>.
  The integer 372 converts to binary32 exactly.
\<close>

definition ctdac_arg :: "real \<Rightarrow> int option" where
  "ctdac_arg product = float_to_int (f32_mul product (of_int SCALING_FACTOR))"

text \<open>Lines 179 to 181, from the two voltages to the code handed to the CTDAC.\<close>

definition scaled_code :: "real \<Rightarrow> real \<Rightarrow> int option" where
  "scaled_code v0 v1 = ctdac_arg (f32_mul v0 v1)"

text \<open>
  The Derived-Output Computer in the specification's words:
  \<open>scaledCode = round(product * scaleFactor)\<close>, to be compared with \<open>scaled_code\<close>.
\<close>

definition spec_scaledCode :: "real \<Rightarrow> real \<Rightarrow> real \<Rightarrow> int" where
  "spec_scaledCode scaleFactor physical0 physical1 = round (physical0 * physical1 * scaleFactor)"

section \<open>Telemetry line\<close>

text \<open>
  Modelled from the spec: the conversion \<open>%.2f\<close> of \<open>printf\<close> (the C library is not in
  the source), "formatted with two decimal digits". It prints a finite value in decimal with
  two digits after the point, correctly rounded (ties to even on the exact value), with a
  minus sign for a negative value. Every other character of the format is copied.
\<close>

definition digit_char :: "nat \<Rightarrow> char" where
  "digit_char d = char_of (48 + d)"

fun dec_digits :: "nat \<Rightarrow> string" where
  "dec_digits n = (if n < 10 then [digit_char n] else dec_digits (n div 10) @ [digit_char (n mod 10)])"

definition fmt_f2 :: "real \<Rightarrow> string" where
  "fmt_f2 x =
     (let n = nat (round_half_even (\<bar>x\<bar> * 100))
      in (if x < 0 then ''-'' else '''') @ dec_digits (n div 100)
         @ ''.'' @ [digit_char (n mod 100 div 10), digit_char (n mod 10)])"

fun c_printf :: "string \<Rightarrow> real list \<Rightarrow> string" where
  "c_printf [] args = []"
| "c_printf (c # fmt) args =
     (if c = CHR ''%'' \<and> take 3 fmt = ''.2f'' \<and> args \<noteq> []
      then fmt_f2 (hd args) @ c_printf (drop 3 fmt) (tl args)
      else c # c_printf fmt args)"

text \<open>
  Line 184: \<open>printf("SAR0 input: %.2fV \t SAR1 input: %.2fV\r\n", resultV_0, resultV_1)\<close>.
\<close>

definition telemetry_format :: string where
  "telemetry_format =
     ''SAR0 input: %.2fV '' @ [CHR 0x09] @ '' SAR1 input: %.2fV'' @ [CHR 0x0D, CHR 0x0A]"

definition telemetry_line :: "real \<Rightarrow> real \<Rightarrow> string" where
  "telemetry_line v0 v1 = c_printf telemetry_format [v0, v1]"

definition is_digit :: "char \<Rightarrow> bool" where
  "is_digit c = (48 \<le> (of_char c :: nat) \<and> (of_char c :: nat) \<le> 57)"

section \<open>Flags, interrupt handlers and the main loop\<close>

text \<open>
  The driver constants \<open>CY_SAR_INTR_EOS\<close> and \<open>CY_SAR_INTR\<close> and the conversion
  \<open>Cy_SAR_CountsTo_Volts\<close> come from the peripheral driver library, which is not part of
  the source: they are parameters of the model.
\<close>

record platform =
  CY_SAR_INTR_EOS :: "32 word"
  CY_SAR_INTR :: "32 word"
  Cy_SAR_CountsTo_Volts :: "nat \<Rightarrow> 16 word \<Rightarrow> real"

text \<open>
  The statements of the \<open>for (;;)\<close> loop of \<open>main\<close>, named by their line in \<open>main.c\<close>.
\<close>

datatype loc =
    Drain_158 | Gate_161 | Sleep_163 | Clear0_167 | Clear1_168
  | Get0_171 | Get1_172 | Volts0_175 | Volts1_176 | Product_179 | SetValue_181 | Printf_184

text \<open>
  The two static flags, the locals of \<open>main\<close>, the position of the main loop, and what the
  program sees of the hardware through the driver calls, none of which is in the source:
  the interrupt status of either SAR (\<open>Cy_SAR_GetInterruptStatus\<close>), its channel 0 result
  (\<open>Cy_SAR_GetResult16\<close>), whether the UART is still transmitting
  (\<open>cyhal_uart_is_tx_active\<close>), the codes handed to \<open>Cy_CTDAC_SetValue\<close> (\<open>None\<close> where
  the conversion to \<open>int\<close> is undefined) and the lines handed to \<open>printf\<close>, latest first.
\<close>

record state =
  sar0_isr_set :: bool
  sar1_isr_set :: bool
  pc :: loc
  sar_result0 :: "16 word"
  sar_result1 :: "16 word"
  resultV_0 :: real
  resultV_1 :: real
  product_result :: real
  sar0_intr :: "32 word"
  sar1_intr :: "32 word"
  sar0_chan0 :: "16 word"
  sar1_chan0 :: "16 word"
  uart_tx_active :: bool
  ctdac_values :: "int option list"
  uart_lines :: "string list"

text \<open>
  Modelled from the spec: the clear-signal service of an analog-input unit
  (\<open>Cy_SAR_ClearInterrupt\<close>, of the driver library, is not in the source). It clears the
  status bits selected by the mask.
\<close>

definition Cy_SAR_ClearInterrupt :: "32 word \<Rightarrow> 32 word \<Rightarrow> 32 word" where
  "Cy_SAR_ClearInterrupt intr intrMask = intr AND NOT intrMask"

text \<open>Lines 296 to 306 and 321 to 331.\<close>

definition sar0_interrupt :: "platform \<Rightarrow> state \<Rightarrow> state" where
  "sar0_interrupt p s =
     (let s1 = (if sar0_intr s AND CY_SAR_INTR_EOS p \<noteq> 0 then s\<lparr>sar0_isr_set := True\<rparr> else s)
      in s1\<lparr>sar0_intr := Cy_SAR_ClearInterrupt (sar0_intr s1) (CY_SAR_INTR p)\<rparr>)"

definition sar1_interrupt :: "platform \<Rightarrow> state \<Rightarrow> state" where
  "sar1_interrupt p s =
     (let s1 = (if sar1_intr s AND CY_SAR_INTR_EOS p \<noteq> 0 then s\<lparr>sar1_isr_set := True\<rparr> else s)
      in s1\<lparr>sar1_intr := Cy_SAR_ClearInterrupt (sar1_intr s1) (CY_SAR_INTR p)\<rparr>)"

text \<open>
  One statement of the loop of lines 155 to 186. The sleep of line 163 returns to the
  test of line 161; the test reads both flags in one step (a handler between the two reads
  can only turn a flag on, which is the same as running it before or after the test).
\<close>

definition main_step :: "platform \<Rightarrow> state \<Rightarrow> state" where
  "main_step p s =
     (case pc s of
        Drain_158 \<Rightarrow> if uart_tx_active s then s else s\<lparr>pc := Gate_161\<rparr>
      | Gate_161 \<Rightarrow>
          if sar0_isr_set s \<and> sar1_isr_set s then s\<lparr>pc := Clear0_167\<rparr> else s\<lparr>pc := Sleep_163\<rparr>
      | Sleep_163 \<Rightarrow> s\<lparr>pc := Gate_161\<rparr>
      | Clear0_167 \<Rightarrow> s\<lparr>sar0_isr_set := False, pc := Clear1_168\<rparr>
      | Clear1_168 \<Rightarrow> s\<lparr>sar1_isr_set := False, pc := Get0_171\<rparr>
      | Get0_171 \<Rightarrow> s\<lparr>sar_result0 := sar0_chan0 s, pc := Get1_172\<rparr>
      | Get1_172 \<Rightarrow> s\<lparr>sar_result1 := sar1_chan0 s, pc := Volts0_175\<rparr>
      | Volts0_175 \<Rightarrow> s\<lparr>resultV_0 := Cy_SAR_CountsTo_Volts p 0 (sar_result0 s), pc := Volts1_176\<rparr>
      | Volts1_176 \<Rightarrow> s\<lparr>resultV_1 := Cy_SAR_CountsTo_Volts p 1 (sar_result1 s), pc := Product_179\<rparr>
      | Product_179 \<Rightarrow> s\<lparr>product_result := f32_mul (resultV_0 s) (resultV_1 s), pc := SetValue_181\<rparr>
      | SetValue_181 \<Rightarrow>
          s\<lparr>ctdac_values := ctdac_arg (product_result s) # ctdac_values s, pc := Printf_184\<rparr>
      | Printf_184 \<Rightarrow>
          s\<lparr>uart_lines := telemetry_line (resultV_0 s) (resultV_1 s) # uart_lines s,
            uart_tx_active := True, pc := Drain_158\<rparr>)"

text \<open>
  What can happen next: the main loop executes a statement; a SAR finishes a scan or
  raises another condition (status bits \<open>w\<close>, channel result \<open>r\<close>); a handler runs, which
  the interrupt controller allows when a status bit enabled by the mask of line 243 or 244
  is pending (both handlers have priority 7, so neither interrupts the other); the UART
  finishes transmitting.
\<close>

datatype event =
    Main | Sar0_irq | Sar1_irq
  | Sar0_hw "32 word" "16 word" | Sar1_hw "32 word" "16 word" | Uart_idle

definition step :: "platform \<Rightarrow> event \<Rightarrow> state \<Rightarrow> state" where
  "step p e s =
     (case e of
        Main \<Rightarrow> main_step p s
      | Sar0_irq \<Rightarrow> if sar0_intr s AND CY_SAR_INTR p \<noteq> 0 then sar0_interrupt p s else s
      | Sar1_irq \<Rightarrow> if sar1_intr s AND CY_SAR_INTR p \<noteq> 0 then sar1_interrupt p s else s
      | Sar0_hw w r \<Rightarrow> s\<lparr>sar0_intr := sar0_intr s OR w, sar0_chan0 := r\<rparr>
      | Sar1_hw w r \<Rightarrow> s\<lparr>sar1_intr := sar1_intr s OR w, sar1_chan0 := r\<rparr>
      | Uart_idle \<Rightarrow> s\<lparr>uart_tx_active := False\<rparr>)"

fun run :: "platform \<Rightarrow> event list \<Rightarrow> state \<Rightarrow> state" where
  "run p [] s = s"
| "run p (e # es) s = run p es (step p e s)"

text \<open>Lines 93, 94 and 117 to 119, at the entry of the loop.\<close>

definition init :: state where
  "init = \<lparr>sar0_isr_set = False, sar1_isr_set = False, pc = Drain_158,
            sar_result0 = 0, sar_result1 = 0, resultV_0 = 0, resultV_1 = 0, product_result = 0,
            sar0_intr = 0, sar1_intr = 0, sar0_chan0 = 0, sar1_chan0 = 0,
            uart_tx_active = True, ctdac_values = [], uart_lines = []\<rparr>"

text \<open>A platform to evaluate the model on: end of scan is bit 0 of three status bits.\<close>

definition demo_platform :: platform where
  "demo_platform = \<lparr>CY_SAR_INTR_EOS = 1, CY_SAR_INTR = 7,
     Cy_SAR_CountsTo_Volts = (\<lambda>u c. f32_round (real_of_int (sint c) * (33 / 10) / 4095))\<rparr>"

section \<open>Observations on a run\<close>

text \<open>
  The gate opens when the main loop executes the test of line 161 and finds both flags
  set. A completion signal is handled when a handler runs with the end-of-scan bit in the
  status it reads.
\<close>

definition gate_opens :: "event \<Rightarrow> state \<Rightarrow> bool" where
  "gate_opens e s = (e = Main \<and> pc s = Gate_161 \<and> sar0_isr_set s \<and> sar1_isr_set s)"

definition eos0_handled :: "platform \<Rightarrow> event \<Rightarrow> state \<Rightarrow> bool" where
  "eos0_handled p e s =
     (e = Sar0_irq \<and> sar0_intr s AND CY_SAR_INTR p \<noteq> 0 \<and> sar0_intr s AND CY_SAR_INTR_EOS p \<noteq> 0)"

definition eos1_handled :: "platform \<Rightarrow> event \<Rightarrow> state \<Rightarrow> bool" where
  "eos1_handled p e s =
     (e = Sar1_irq \<and> sar1_intr s AND CY_SAR_INTR p \<noteq> 0 \<and> sar1_intr s AND CY_SAR_INTR_EOS p \<noteq> 0)"

text \<open>
  For either unit, whether its completion signal has been handled since the last gate
  opening of the run (\<open>g\<close> is the pair at the start of the run).
\<close>

fun signalled_since_open :: "platform \<Rightarrow> event list \<Rightarrow> state \<Rightarrow> bool \<times> bool \<Rightarrow> bool \<times> bool" where
  "signalled_since_open p [] s g = g"
| "signalled_since_open p (e # es) s g =
     signalled_since_open p es (step p e s)
       (if gate_opens e s then (False, False)
        else (fst g \<or> eos0_handled p e s, snd g \<or> eos1_handled p e s))"

text \<open>
  A completion signal is overwritten when it is handled after the test of line 161 has
  passed and before the main loop clears the flag of its unit (lines 167 and 168).
\<close>

definition overwritten :: "platform \<Rightarrow> event \<Rightarrow> state \<Rightarrow> bool" where
  "overwritten p e s =
     (pc s = Clear0_167 \<and> (eos0_handled p e s \<or> eos1_handled p e s)
      \<or> pc s = Clear1_168 \<and> eos1_handled p e s)"

fun none_overwritten :: "platform \<Rightarrow> event list \<Rightarrow> state \<Rightarrow> bool" where
  "none_overwritten p [] s = True"
| "none_overwritten p (e # es) s = (\<not> overwritten p e s \<and> none_overwritten p es (step p e s))"

fun gate_openings :: "platform \<Rightarrow> event list \<Rightarrow> state \<Rightarrow> nat" where
  "gate_openings p [] s = 0"
| "gate_openings p (e # es) s = (if gate_opens e s then 1 else 0) + gate_openings p es (step p e s)"

fun eos0_count :: "platform \<Rightarrow> event list \<Rightarrow> state \<Rightarrow> nat" where
  "eos0_count p [] s = 0"
| "eos0_count p (e # es) s = (if eos0_handled p e s then 1 else 0) + eos0_count p es (step p e s)"

fun eos1_count :: "platform \<Rightarrow> event list \<Rightarrow> state \<Rightarrow> nat" where
  "eos1_count p [] s = 0"
| "eos1_count p (e # es) s = (if eos1_handled p e s then 1 else 0) + eos1_count p es (step p e s)"

text \<open>The three stages of an iteration of the loop.\<close>

datatype stage = Draining | Waiting | Processing

fun stage_of :: "loc \<Rightarrow> stage" where
  "stage_of Drain_158 = Draining"
| "stage_of Gate_161 = Waiting"
| "stage_of Sleep_163 = Waiting"
| "stage_of l = Processing"

fun next_stage :: "stage \<Rightarrow> stage" where
  "next_stage Draining = Waiting"
| "next_stage Waiting = Processing"
| "next_stage Processing = Draining"

text \<open>
  The stages a run goes through: one entry for the state before each event and one for the
  last state.
\<close>

fun stage_trace :: "platform \<Rightarrow> event list \<Rightarrow> state \<Rightarrow> stage list" where
  "stage_trace p [] s = [stage_of (pc s)]"
| "stage_trace p (e # es) s = stage_of (pc s) # stage_trace p es (step p e s)"

fun in_order :: "stage list \<Rightarrow> bool" where
  "in_order (a # b # xs) = ((b = a \<or> b = next_stage a) \<and> in_order (b # xs))"
| "in_order xs = True"

text \<open>
  What the flags are between two events, in terms of the signals handled since the last
  gate opening (\<open>gate_inv\<close>), and of the numbers of openings and of handled signals
  (\<open>count_inv\<close>).
\<close>

definition gate_inv :: "state \<Rightarrow> bool \<times> bool \<Rightarrow> bool" where
  "gate_inv s g =
     (if pc s = Clear0_167 then sar0_isr_set s \<and> sar1_isr_set s \<and> g = (False, False)
      else if pc s = Clear1_168 then sar1_isr_set s \<and> \<not> snd g \<and> fst g = sar0_isr_set s
      else g = (sar0_isr_set s, sar1_isr_set s))"

definition count_inv :: "state \<Rightarrow> nat \<Rightarrow> nat \<Rightarrow> nat \<Rightarrow> bool" where
  "count_inv s n c0 c1 =
     (n + (if sar0_isr_set s \<and> pc s \<noteq> Clear0_167 then 1 else 0) \<le> c0
      \<and> n + (if sar1_isr_set s \<and> pc s \<noteq> Clear0_167 \<and> pc s \<noteq> Clear1_168 then 1 else 0) \<le> c1)"

text \<open>
  The text of a \<open>%.2f\<close> conversion: an optional minus sign, at least one digit, a point
  and exactly two digits.
\<close>

definition is_f2_text :: "string \<Rightarrow> bool" where
  "is_f2_text t =
     (let u = (if take 1 t = ''-'' then drop 1 t else t); n = length u
      in 4 \<le> n \<and> list_all is_digit (take (n - 3) u) \<and> u ! (n - 3) = CHR ''.''
         \<and> is_digit (u ! (n - 2)) \<and> is_digit (u ! (n - 1)))"

section \<open>Conversion-to-Value Mapper\<close>

text \<open>
  Modelled from the spec: the mapper \<open>rawToPhysical\<close> of section 4.4 (the conversion
  \<open>Cy_SAR_CountsTo_Volts\<close> called at lines 175 and 176 belongs to the driver library and is
  not in the source): \<open>physicalValue = rawCount * (fullScaleVoltage / fullScaleCodeCount)\<close>.
  A calibration is valid (section 4.2) when the full-scale voltage is not zero and the
  full-scale code count is positive.
\<close>

record calibration =
  fullScaleVoltage :: real
  fullScaleCodeCount :: int

definition valid_calibration :: "calibration \<Rightarrow> bool" where
  "valid_calibration cal = (fullScaleVoltage cal \<noteq> 0 \<and> 0 < fullScaleCodeCount cal)"

definition rawToPhysical :: "int \<Rightarrow> calibration \<Rightarrow> real" where
  "rawToPhysical rawCount cal =
     of_int rawCount * (fullScaleVoltage cal / of_int (fullScaleCodeCount cal))"

section \<open>Properties of the single-precision arithmetic\<close>

lemma round_half_even_le: "t \<le> of_int N \<Longrightarrow> round_half_even t \<le> N"
proof -
  assume a: "t \<le> of_int N"
  have f: "\<lfloor>t\<rfloor> \<le> N" using a by (simp add: floor_le_iff)
  show ?thesis
  proof (cases "\<lfloor>t\<rfloor> = N")
    case True
    then have "t = of_int N" using a by (metis of_int_floor_le order_antisym)
    then show ?thesis by (simp add: round_half_even_def)
  next
    case False
    then have "\<lfloor>t\<rfloor> + 1 \<le> N" using f by simp
    then show ?thesis by (simp add: round_half_even_def Let_def)
  qed
qed

lemma round_half_even_ge: "of_int N \<le> t \<Longrightarrow> N \<le> round_half_even t"
proof -
  assume "of_int N \<le> t"
  then have "N \<le> \<lfloor>t\<rfloor>" by (simp add: le_floor_iff)
  then show ?thesis by (simp add: round_half_even_def Let_def)
qed

lemma round_half_even_of_int: "round_half_even (of_int N) = N"
  unfolding round_half_even_def Let_def by simp

lemma round_half_even_err: "\<bar>of_int (round_half_even t) - t\<bar> \<le> 1 / 2"
  unfolding round_half_even_def Let_def
  by (auto; linarith)

lemma f32_exponent_le:
  assumes "\<bar>x\<bar> < 2 powi (E + 1)" and "- 126 \<le> E"
  shows "f32_exponent x \<le> E"
proof -
  define k :: nat where "k = 149"
  let ?n = "nat \<lfloor>\<bar>x\<bar> * 2 ^ k\<rfloor>"
  have E150: "0 \<le> E + 1 + int k" using assms(2) by (simp add: k_def)
  have "\<bar>x\<bar> * 2 ^ k < 2 powi (E + 1) * 2 ^ k"
    using assms(1) by simp
  also have "\<dots> = 2 powi (E + 1) * 2 powi (int k)"
    by simp
  also have "\<dots> = 2 powi (E + 1 + int k)"
    by (simp add: power_int_add)
  also have "\<dots> = 2 ^ nat (E + 1 + int k)"
    using E150 by (simp add: power_int_def)
  finally have lt: "\<bar>x\<bar> * 2 ^ k < 2 ^ nat (E + 1 + int k)" .
  have "real_of_int \<lfloor>\<bar>x\<bar> * 2 ^ k\<rfloor> < 2 ^ nat (E + 1 + int k)"
    using lt by linarith
  then have "\<lfloor>\<bar>x\<bar> * 2 ^ k\<rfloor> < 2 ^ nat (E + 1 + int k)"
    by (metis of_int_less_iff of_int_numeral of_int_power)
  then have "?n < 2 ^ nat (E + 1 + int k)"
    by (simp add: nat_less_iff)
  then have "floorlog 2 ?n \<le> nat (E + 1 + int k)"
    by (simp add: floorlog_le_iff)
  then have "int (floorlog 2 (nat \<lfloor>\<bar>x\<bar> * 2 ^ 149\<rfloor>)) \<le> E + 150"
    using E150 unfolding k_def by linarith
  then show ?thesis
    using assms(2) unfolding f32_exponent_def by linarith
qed

lemma f32_exponent_eq:
  assumes "2 powi e \<le> \<bar>x\<bar>" and "\<bar>x\<bar> < 2 powi (e + 1)" and "- 126 \<le> e"
  shows "f32_exponent x = e"
proof -
  define k :: nat where "k = 149"
  define w :: nat where "w = nat (e + int k)"
  have w: "int w = e + int k" using assms(3) by (simp add: w_def k_def)
  have "(2::real) ^ w = 2 powi (int w)" by simp
  also have "\<dots> = 2 powi e * 2 powi (int k)" unfolding w by (simp add: power_int_add)
  also have "\<dots> = 2 powi e * 2 ^ k" by simp
  also have "\<dots> \<le> \<bar>x\<bar> * 2 ^ k" using assms(1) by simp
  finally have "real_of_int (2 ^ w) \<le> \<bar>x\<bar> * 2 ^ k" by simp
  then have "2 ^ w \<le> \<lfloor>\<bar>x\<bar> * 2 ^ k\<rfloor>" by (simp only: le_floor_iff)
  then have "int (2 ^ w) \<le> \<lfloor>\<bar>x\<bar> * 2 ^ k\<rfloor>" by simp
  then have "2 ^ w \<le> nat \<lfloor>\<bar>x\<bar> * 2 ^ k\<rfloor>" by linarith
  then have "Suc w \<le> floorlog 2 (nat \<lfloor>\<bar>x\<bar> * 2 ^ k\<rfloor>)"
    by (intro floorlog_ge_SucI) simp_all
  then have "e + 150 \<le> int (floorlog 2 (nat \<lfloor>\<bar>x\<bar> * 2 ^ 149\<rfloor>))"
    using w unfolding k_def by linarith
  then have "e \<le> f32_exponent x"
    unfolding f32_exponent_def by linarith
  moreover have "f32_exponent x \<le> e"
    using assms(2,3) by (rule f32_exponent_le)
  ultimately show ?thesis by simp
qed

text \<open>The rounding of a value whose binade is known.\<close>

lemma f32_round_eq:
  assumes "2 powi e \<le> \<bar>x\<bar>" and "\<bar>x\<bar> < 2 powi (e + 1)" and "- 126 \<le> e"
  shows "f32_round x = of_int (round_half_even (x / 2 powi (e - 23))) * 2 powi (e - 23)"
  by (simp add: f32_round_def Let_def f32_exponent_eq[OF assms])

text \<open>
  A binary32 value, \<open>m * 2 powi k\<close> with a significand of at most 24 bits, is its own
  rounding: a product that is such a value is computed exactly.
\<close>

lemma f32_round_representable:
  assumes "\<bar>real_of_int m\<bar> * 2 powi k < 2 powi (k + 24)" and "- 149 \<le> k"
  shows "f32_round (of_int m * 2 powi k) = of_int m * 2 powi k"
proof -
  define x where "x = real_of_int m * 2 powi k"
  define e where "e = f32_exponent x"
  define q :: real where "q = 2 powi (e - 23)"
  have q: "0 < q" by (simp add: q_def)
  have "\<bar>x\<bar> < 2 powi ((k + 23) + 1)"
    using assms(1) by (simp add: x_def abs_mult add.commute)
  then have "e \<le> k + 23"
    unfolding e_def using assms(2) by (intro f32_exponent_le) simp_all
  then have d: "0 \<le> k - (e - 23)" by simp
  have "(2::real) powi k = 2 powi (k - (e - 23)) * 2 powi (e - 23)"
    by (simp add: power_int_add[symmetric])
  also have "\<dots> = 2 ^ nat (k - (e - 23)) * q"
    using d by (simp add: power_int_def q_def)
  finally have k: "(2::real) powi k = 2 ^ nat (k - (e - 23)) * q" .
  have "x / q = of_int (m * 2 ^ nat (k - (e - 23)))"
    using q unfolding x_def k by simp
  then have "of_int (round_half_even (x / q)) * q = of_int (m * 2 ^ nat (k - (e - 23))) * q"
    by (simp only: round_half_even_of_int)
  also have "\<dots> = x"
    unfolding x_def k by simp
  finally show ?thesis
    unfolding f32_round_def Let_def x_def[symmetric] e_def[symmetric] q_def[symmetric] .
qed

lemma f32_mul_exact:
  assumes "a * b = of_int m * 2 powi k"
    and "\<bar>real_of_int m\<bar> * 2 powi k < 2 powi (k + 24)" and "- 149 \<le> k"
  shows "f32_mul a b = a * b"
  unfolding f32_mul_def assms(1) using assms(2,3) by (rule f32_round_representable)

lemma f32_round_nonneg: "0 \<le> x \<Longrightarrow> 0 \<le> f32_round x"
proof -
  assume x: "0 \<le> x"
  define q :: real where "q = 2 powi (f32_exponent x - 23)"
  have q: "0 < q" by (simp add: q_def)
  have "of_int 0 \<le> x / q" using x q by simp
  then have "0 \<le> round_half_even (x / q)" by (rule round_half_even_ge)
  then show ?thesis
    using q unfolding f32_round_def Let_def q_def[symmetric] by simp
qed

text \<open>Rounding does not cross a binary32 value.\<close>

lemma f32_round_le:
  assumes "x \<le> of_int m * 2 powi k" and "0 \<le> x"
    and "real_of_int m * 2 powi k < 2 powi (k + 24)" and "- 149 \<le> k"
  shows "f32_round x \<le> of_int m * 2 powi k"
proof -
  define e where "e = f32_exponent x"
  define q :: real where "q = 2 powi (e - 23)"
  have q: "0 < q" by (simp add: q_def)
  have "\<bar>x\<bar> < 2 powi ((k + 23) + 1)"
    using assms(1,2,3) by (simp add: add.commute)
  then have "e \<le> k + 23"
    unfolding e_def using assms(4) by (intro f32_exponent_le) simp_all
  then have d: "0 \<le> k - (e - 23)" by simp
  have "(2::real) powi k = 2 powi (k - (e - 23)) * 2 powi (e - 23)"
    by (simp add: power_int_add[symmetric])
  also have "\<dots> = 2 ^ nat (k - (e - 23)) * q"
    using d by (simp add: power_int_def q_def)
  finally have k: "(2::real) powi k = 2 ^ nat (k - (e - 23)) * q" .
  have "x / q \<le> of_int m * 2 ^ nat (k - (e - 23))"
    using assms(1) q unfolding k by (simp add: field_simps)
  then have "x / q \<le> of_int (m * 2 ^ nat (k - (e - 23)))"
    by simp
  then have "round_half_even (x / q) \<le> m * 2 ^ nat (k - (e - 23))"
    by (rule round_half_even_le)
  then have "real_of_int (round_half_even (x / q)) \<le> of_int (m * 2 ^ nat (k - (e - 23)))"
    by (simp only: of_int_le_iff)
  then have "of_int (round_half_even (x / q)) * q \<le> of_int (m * 2 ^ nat (k - (e - 23))) * q"
    using q by (simp only: mult_le_cancel_right_pos)
  also have "\<dots> = of_int m * 2 powi k"
    unfolding k by simp
  finally show ?thesis
    unfolding f32_round_def Let_def e_def[symmetric] q_def[symmetric] .
qed

text \<open>The rounding error is at most half a unit in the last place.\<close>

lemma f32_round_err:
  assumes "\<bar>x\<bar> < 2 powi (E + 1)" and "- 126 \<le> E"
  shows "\<bar>f32_round x - x\<bar> \<le> 2 powi (E - 24)"
proof -
  define e where "e = f32_exponent x"
  define q :: real where "q = 2 powi (e - 23)"
  have q: "0 < q" by (simp add: q_def)
  have e: "e \<le> E" unfolding e_def using assms by (rule f32_exponent_le)
  have "f32_round x - x = (of_int (round_half_even (x / q)) - x / q) * q"
    using q unfolding f32_round_def Let_def e_def[symmetric] q_def[symmetric]
    by (simp add: field_simps)
  then have "\<bar>f32_round x - x\<bar> = \<bar>of_int (round_half_even (x / q)) - x / q\<bar> * q"
    using q by (simp add: abs_mult)
  also have "\<dots> \<le> (1 / 2) * q"
    using round_half_even_err[of "x / q"] q by (intro mult_right_mono) simp_all
  also have "\<dots> = 2 powi (e - 24)"
    unfolding q_def by (simp add: power_int_diff)
  also have "\<dots> \<le> 2 powi (E - 24)"
    using e by (intro power_int_increasing) simp_all
  finally show ?thesis .
qed

lemma f32_round_zero: "f32_round 0 = 0"
  by (simp add: f32_round_def round_half_even_def)

text \<open>
  Three known roundings: 0.1 becomes the binary32 value \<open>0x3DCCCCCD\<close>, 3.3 becomes
  \<open>0x40533333\<close>, and \<open>2 ^ 24 + 1\<close>, half way between two values, goes to the even one.
\<close>

lemma f32_round_tenth: "f32_round (1 / 10) = 13421773 / 134217728"
  by (subst f32_round_eq[where e = "- 4"]) (simp_all add: round_half_even_def power_int_minus)

lemma f32_round_3_3: "f32_round (33 / 10) = 13841203 / 4194304"
  by (subst f32_round_eq[where e = 1]) (simp_all add: round_half_even_def power_int_minus)

lemma f32_round_tie: "f32_round 16777217 = 16777216"
  by (subst f32_round_eq[where e = 24]) (simp_all add: round_half_even_def)

lemma c_trunc_bounds:
  "(0 \<le> x \<longrightarrow> of_int (c_trunc x) \<le> x \<and> x < of_int (c_trunc x) + 1)
   \<and> (x \<le> 0 \<longrightarrow> x \<le> of_int (c_trunc x) \<and> of_int (c_trunc x) - 1 < x)"
  unfolding c_trunc_def by (auto; linarith)

lemma scaled_code_Some:
  "scaled_code v0 v1 = Some c \<Longrightarrow> c = c_trunc (f32_mul (f32_mul v0 v1) (of_int SCALING_FACTOR))"
  by (auto simp: scaled_code_def ctdac_arg_def float_to_int_def Let_def split: if_splits)

section \<open>The scaled code of voltages within the input range\<close>

lemma product_bound:
  assumes "0 \<le> v0" "v0 \<le> 33 / 10" "0 \<le> v1" "v1 \<le> 33 / 10"
  shows "0 \<le> f32_mul v0 v1 \<and> f32_mul v0 v1 \<le> 11418993 / 1048576
         \<and> \<bar>f32_mul v0 v1 - v0 * v1\<bar> \<le> 1 / 2097152"
proof -
  have x0: "0 \<le> v0 * v1" using assms by simp
  have "v0 * v1 \<le> (33 / 10) * (33 / 10)"
    using assms by (intro mult_mono) simp_all
  then have x2: "v0 * v1 \<le> 1089 / 100" by simp
  then have x1: "v0 * v1 \<le> real_of_int 11418993 * 2 powi (- 20)"
    by (simp add: power_int_minus)
  have "f32_round (v0 * v1) \<le> real_of_int 11418993 * 2 powi (- 20)"
    using x1 x0 by (rule f32_round_le) (simp_all add: power_int_minus)
  moreover have "\<bar>f32_round (v0 * v1) - v0 * v1\<bar> \<le> 2 powi (3 - 24)"
    using x0 x2 by (intro f32_round_err) simp_all
  ultimately show ?thesis
    using f32_round_nonneg[OF x0] by (simp add: f32_mul_def power_int_minus)
qed

lemma scaled_bound:
  assumes "0 \<le> y" "y \<le> 11418993 / 1048576"
  shows "0 \<le> f32_mul y (of_int SCALING_FACTOR) \<and> f32_mul y (of_int SCALING_FACTOR) \<le> 16205 / 4
         \<and> \<bar>f32_mul y (of_int SCALING_FACTOR) - y * 372\<bar> \<le> 1 / 8192"
proof -
  have x0: "0 \<le> y * 372" using assms by simp
  have x1: "y * 372 \<le> real_of_int 16205 * 2 powi (- 2)"
    using assms by (simp add: power_int_minus)
  have "f32_round (y * 372) \<le> real_of_int 16205 * 2 powi (- 2)"
    using x1 x0 by (rule f32_round_le) (simp_all add: power_int_minus)
  moreover have "\<bar>f32_round (y * 372) - y * 372\<bar> \<le> 2 powi (11 - 24)"
    using x0 assms(2) by (intro f32_round_err) simp_all
  ultimately show ?thesis
    using f32_round_nonneg[OF x0] by (simp add: f32_mul_def SCALING_FACTOR_def power_int_minus)
qed

lemma scaled_code_bounded:
  assumes "0 \<le> v0" "v0 \<le> 33 / 10" "0 \<le> v1" "v1 \<le> 33 / 10"
  shows "\<exists>c. scaled_code v0 v1 = Some c \<and> 0 \<le> c \<and> c \<le> 4051"
proof -
  define s where "s = f32_mul (f32_mul v0 v1) (of_int SCALING_FACTOR)"
  from product_bound[OF assms] have "0 \<le> s \<and> s \<le> 16205 / 4"
    unfolding s_def using scaled_bound[of "f32_mul v0 v1"] by simp
  then have s: "0 \<le> s" "s \<le> 16205 / 4" by simp_all
  have t: "c_trunc s = \<lfloor>s\<rfloor>" using s by (simp add: c_trunc_def)
  have lo: "0 \<le> \<lfloor>s\<rfloor>" using s by simp
  have "\<lfloor>s\<rfloor> \<le> \<lfloor>16205 / 4 :: real\<rfloor>" using s(2) by (rule floor_mono)
  then have hi: "\<lfloor>s\<rfloor> \<le> 4051" by simp
  have "scaled_code v0 v1 = Some \<lfloor>s\<rfloor>"
    using lo hi by (simp add: scaled_code_def ctdac_arg_def float_to_int_def t s_def[symmetric])
  then show ?thesis using lo hi by simp
qed

lemma scaled_error:
  assumes "0 \<le> v0" "v0 \<le> 33 / 10" "0 \<le> v1" "v1 \<le> 33 / 10"
  shows "\<bar>f32_mul (f32_mul v0 v1) (of_int SCALING_FACTOR) - v0 * v1 * 372\<bar> \<le> 3 / 10000"
proof -
  define y where "y = f32_mul v0 v1"
  define s where "s = f32_mul y (of_int SCALING_FACTOR)"
  from product_bound[OF assms]
  have y: "0 \<le> y" "y \<le> 11418993 / 1048576" "\<bar>y - v0 * v1\<bar> \<le> 1 / 2097152"
    unfolding y_def by simp_all
  from scaled_bound[OF y(1,2)] have s: "\<bar>s - y * 372\<bar> \<le> 1 / 8192"
    unfolding s_def by simp
  have "\<bar>s - v0 * v1 * 372\<bar> = \<bar>(s - y * 372) + 372 * (y - v0 * v1)\<bar>"
    by (simp add: algebra_simps)
  also have "\<dots> \<le> \<bar>s - y * 372\<bar> + \<bar>372 * (y - v0 * v1)\<bar>"
    by (rule abs_triangle_ineq)
  also have "\<dots> = \<bar>s - y * 372\<bar> + 372 * \<bar>y - v0 * v1\<bar>"
    by (simp only: abs_mult abs_numeral)
  also have "\<dots> \<le> 1 / 8192 + 372 * (1 / 2097152)"
    using s y(3) by (intro add_mono mult_left_mono) simp_all
  also have "\<dots> \<le> 3 / 10000" by simp
  finally show ?thesis unfolding s_def y_def .
qed

section \<open>Examples of scaled codes\<close>

lemma scaled_code_4_4: "scaled_code 4 4 = Some 5952"
proof -
  have a: "f32_mul 4 4 = 4 * 4" by (rule f32_mul_exact[of _ _ 1 4]) simp_all
  have b: "f32_mul 16 372 = 16 * 372" by (rule f32_mul_exact[of _ _ 5952 0]) simp_all
  show ?thesis
    by (simp add: scaled_code_def ctdac_arg_def SCALING_FACTOR_def a b float_to_int_def c_trunc_def)
qed

lemma scaled_code_neg: "scaled_code (- 1) 1 = Some (- 372)"
proof -
  have a: "f32_mul (- 1) 1 = (- 1) * 1" by (rule f32_mul_exact[of _ _ "- 1" 0]) simp_all
  have b: "f32_mul (- 1) 372 = (- 1) * 372" by (rule f32_mul_exact[of _ _ "- 372" 0]) simp_all
  show ?thesis
    by (simp add: scaled_code_def ctdac_arg_def SCALING_FACTOR_def a b float_to_int_def c_trunc_def)
qed

lemma scaled_code_1_2: "scaled_code 1 2 = Some 744"
proof -
  have a: "f32_mul 1 2 = 1 * 2" by (rule f32_mul_exact[of _ _ 1 1]) simp_all
  have b: "f32_mul 2 372 = 2 * 372" by (rule f32_mul_exact[of _ _ 744 0]) simp_all
  show ?thesis
    by (simp add: scaled_code_def ctdac_arg_def SCALING_FACTOR_def a b float_to_int_def c_trunc_def)
qed

lemma scaled_code_1_128th: "scaled_code 1 (1 / 128) = Some 2"
proof -
  have a: "f32_mul 1 (1 / 128) = 1 * (1 / 128)"
    by (rule f32_mul_exact[of _ _ 1 "- 7"]) (simp_all add: power_int_minus)
  have b: "f32_mul (1 / 128) 372 = (1 / 128) * 372"
    by (rule f32_mul_exact[of _ _ 93 "- 5"]) (simp_all add: power_int_minus)
  show ?thesis
    by (simp add: scaled_code_def ctdac_arg_def SCALING_FACTOR_def a b float_to_int_def c_trunc_def)
qed

lemma scaled_code_full_scale_real: "scaled_code (33 / 10) (33 / 10) = Some 4051"
proof -
  have a: "f32_mul (33 / 10) (33 / 10) = 11418993 / 1048576"
    unfolding f32_mul_def
    by (subst f32_round_eq[where e = 3]) (simp_all add: round_half_even_def power_int_minus)
  have b: "f32_mul (11418993 / 1048576) 372 = 2074153 / 512"
    unfolding f32_mul_def
    by (subst f32_round_eq[where e = 11]) (simp_all add: round_half_even_def power_int_minus)
  show ?thesis
    by (simp add: scaled_code_def ctdac_arg_def SCALING_FACTOR_def a b float_to_int_def c_trunc_def)
qed

lemma scaled_code_full_scale_f32:
  "scaled_code (13841203 / 4194304) (13841203 / 4194304) = Some 4051"
proof -
  have a: "f32_mul (13841203 / 4194304) (13841203 / 4194304) = 713687 / 65536"
    unfolding f32_mul_def
    by (subst f32_round_eq[where e = 3]) (simp_all add: round_half_even_def power_int_minus)
  have b: "f32_mul (713687 / 65536) 372 = 16593223 / 4096"
    unfolding f32_mul_def
    by (subst f32_round_eq[where e = 11]) (simp_all add: round_half_even_def power_int_minus)
  show ?thesis
    by (simp add: scaled_code_def ctdac_arg_def SCALING_FACTOR_def a b float_to_int_def c_trunc_def)
qed

lemma scaled_code_zero: "scaled_code 0 x = Some 0"
  by (simp add: scaled_code_def ctdac_arg_def f32_mul_def f32_round_zero float_to_int_def c_trunc_def)

lemma scaled_value_1_128th: "f32_mul (f32_mul 1 (1 / 128)) (of_int SCALING_FACTOR) = 93 / 32"
proof -
  have a: "f32_mul 1 (1 / 128) = 1 * (1 / 128)"
    by (rule f32_mul_exact[of _ _ 1 "- 7"]) (simp_all add: power_int_minus)
  have b: "f32_mul (1 / 128) 372 = (1 / 128) * 372"
    by (rule f32_mul_exact[of _ _ 93 "- 5"]) (simp_all add: power_int_minus)
  show ?thesis
    by (simp add: SCALING_FACTOR_def a b)
qed

lemma scaled_value_neg: "f32_mul (f32_mul (- 1) 1) (of_int SCALING_FACTOR) = - 372"
proof -
  have a: "f32_mul (- 1) 1 = (- 1) * 1" by (rule f32_mul_exact[of _ _ "- 1" 0]) simp_all
  have b: "f32_mul (- 1) 372 = (- 1) * 372" by (rule f32_mul_exact[of _ _ "- 372" 0]) simp_all
  show ?thesis
    by (simp add: SCALING_FACTOR_def a b)
qed

section \<open>The code handed to the CTDAC\<close>

text \<open>
  C1, as amended. The loop applies no clamp: line 181 hands the truncated scaled product to
  \<open>Cy_CTDAC_SetValue\<close> as it is. For every pair of voltages between 0 V and 3.3 V, the
  input range of the two converters, the conversion is defined and the code lies between 0
  and 4051, hence between 0 and the greatest CTDAC code 4095.
\<close>

theorem scaled_code_within_device_range:
  assumes "0 \<le> v0" and "v0 \<le> 33 / 10" and "0 \<le> v1" and "v1 \<le> 33 / 10"
  shows "\<exists>c. scaled_code v0 v1 = Some c \<and> 0 \<le> c \<and> c \<le> 4051 \<and> c \<le> CTDAC_MAX_CODE"
proof -
  from scaled_code_bounded[OF assms] obtain c
    where "scaled_code v0 v1 = Some c" and "0 \<le> c" and "c \<le> 4051"
    by blast
  then show ?thesis
    by (simp add: CTDAC_MAX_CODE_def)
qed

theorem scaled_code_within_device_range_witness:
  "(0 :: real) \<le> 1 \<and> (1 :: real) \<le> 33 / 10 \<and> (0 :: real) \<le> 2 \<and> (2 :: real) \<le> 33 / 10
   \<and> (\<exists>c. scaled_code 1 2 = Some c \<and> 0 \<le> c \<and> c \<le> 4051 \<and> c \<le> CTDAC_MAX_CODE)"
  using scaled_code_within_device_range[of 1 2] by simp

text \<open>
  C1 as stated fails: 4 V and 4 V give the code 5952, above 4095, and -1 V and 1 V give the
  negative code -372. Both products and both scalings are exact in single precision.
\<close>

theorem scaled_code_unclamped_counterexample:
  "scaled_code 4 4 = Some 5952 \<and> CTDAC_MAX_CODE < 5952
   \<and> scaled_code (- 1) 1 = Some (- 372) \<and> (- 372 :: int) < 0"
  by (simp add: scaled_code_4_4 scaled_code_neg CTDAC_MAX_CODE_def)

text \<open>
  C4, as amended. The code is the single-precision product of the two voltages, scaled by
  372 in single precision, with its fractional part discarded (truncation toward zero, the
  cast of line 181), whenever that conversion is defined; it is not rounded to the nearest
  integer. For voltages between 0 V and 3.3 V the conversion is defined and the value that
  is truncated, \<open>s\<close> before the cast, differs from the exact \<open>physical0 * physical1 * 372\<close>
  by at most 0.0003; the code itself is below \<open>s\<close> by the discarded fraction.
\<close>

theorem scaled_code_truncates:
  "(let s = f32_mul (f32_mul v0 v1) (of_int SCALING_FACTOR)
    in (scaled_code v0 v1 = Some c \<longrightarrow>
          (0 \<le> s \<longrightarrow> of_int c \<le> s \<and> s < of_int c + 1)
          \<and> (s \<le> 0 \<longrightarrow> s \<le> of_int c \<and> of_int c - 1 < s))
       \<and> (0 \<le> v0 \<and> v0 \<le> 33 / 10 \<and> 0 \<le> v1 \<and> v1 \<le> 33 / 10 \<longrightarrow>
            (\<exists>d. scaled_code v0 v1 = Some d) \<and> \<bar>s - v0 * v1 * 372\<bar> \<le> 3 / 10000))"
proof -
  define s where "s = f32_mul (f32_mul v0 v1) (of_int SCALING_FACTOR)"
  have a: "(0 \<le> s \<longrightarrow> of_int c \<le> s \<and> s < of_int c + 1)
           \<and> (s \<le> 0 \<longrightarrow> s \<le> of_int c \<and> of_int c - 1 < s)"
    if "scaled_code v0 v1 = Some c"
    using scaled_code_Some[OF that] c_trunc_bounds[of s] by (simp add: s_def)
  have b: "(\<exists>d. scaled_code v0 v1 = Some d) \<and> \<bar>s - v0 * v1 * 372\<bar> \<le> 3 / 10000"
    if "0 \<le> v0" "v0 \<le> 33 / 10" "0 \<le> v1" "v1 \<le> 33 / 10"
    using scaled_code_bounded[OF that] scaled_error[OF that] by (auto simp: s_def)
  show ?thesis
    unfolding Let_def s_def[symmetric] using a b by blast
qed

theorem scaled_code_truncates_witness:
  "scaled_code 1 (1 / 128) = Some 2
   \<and> f32_mul (f32_mul 1 (1 / 128)) (of_int SCALING_FACTOR) = 93 / 32
   \<and> real_of_int 2 \<le> 93 / 32 \<and> (93 / 32 :: real) < real_of_int 2 + 1
   \<and> \<bar>f32_mul (f32_mul 1 (1 / 128)) (of_int SCALING_FACTOR) - 1 * (1 / 128) * 372\<bar> \<le> 3 / 10000
   \<and> scaled_code (- 1) 1 = Some (- 372)
   \<and> f32_mul (f32_mul (- 1) 1) (of_int SCALING_FACTOR) = - 372
   \<and> (- 372 :: real) \<le> real_of_int (- 372) \<and> real_of_int (- 372) - 1 < (- 372 :: real)"
  using scaled_code_truncates[of 1 "1 / 128" 2] scaled_code_truncates[of "- 1" 1 "- 372"]
  by (simp add: scaled_code_1_128th scaled_value_1_128th scaled_code_neg scaled_value_neg)

text \<open>
  C4 as stated fails: for 1 V and 1/128 V the scaled product is 2.90625, which the
  specification's formula rounds to 3 and the code truncates to 2.
\<close>

theorem scaled_code_not_rounded_counterexample:
  "scaled_code 1 (1 / 128) = Some 2 \<and> spec_scaledCode 372 1 (1 / 128) = 3"
  by (simp add: scaled_code_1_128th spec_scaledCode_def round_def)

text \<open>
  C5. The two full-scale inputs, 3.3 V and 3.3 V, give the code 4051, below the greatest
  code 4095 that the comment of lines 52 to 60 assigns to the product 10.89: the scaling
  factor 372 is less than 4095 / 10.89. This holds for the exact value 3.3 and for the
  binary32 value nearest to it. A zero input gives the code 0 whatever the other input is.
\<close>

theorem full_scale_code_is_4051:
  "scaled_code (33 / 10) (33 / 10) = Some 4051
   \<and> scaled_code (f32_round (33 / 10)) (f32_round (33 / 10)) = Some 4051
   \<and> (4051 :: int) < CTDAC_MAX_CODE
   \<and> (\<forall>x. scaled_code 0 x = Some 0)"
  by (simp add: scaled_code_full_scale_real f32_round_3_3 scaled_code_full_scale_f32
      CTDAC_MAX_CODE_def scaled_code_zero)

section \<open>Interrupt handlers and steps of the loop\<close>

lemmas step_defs = step_def main_step_def sar0_interrupt_def sar1_interrupt_def
  Cy_SAR_ClearInterrupt_def

lemmas obs_defs = gate_opens_def eos0_handled_def eos1_handled_def

lemmas eval_defs = step_defs obs_defs init_def demo_platform_def Let_def

text \<open>
  C10. A handler sets its flag when the end-of-scan bit is in the status it reads and leaves
  the flag as it was otherwise; in both cases the status bits of \<open>CY_SAR_INTR\<close> are cleared.
\<close>

theorem handler_sets_flag_on_end_of_scan:
  "sar0_isr_set (sar0_interrupt p s)
     = (if sar0_intr s AND CY_SAR_INTR_EOS p = 0 then sar0_isr_set s else True)
   \<and> sar1_isr_set (sar1_interrupt p s)
     = (if sar1_intr s AND CY_SAR_INTR_EOS p = 0 then sar1_isr_set s else True)
   \<and> sar0_intr (sar0_interrupt p s) AND CY_SAR_INTR p = 0
   \<and> sar1_intr (sar1_interrupt p s) AND CY_SAR_INTR p = 0"
  by (simp add: sar0_interrupt_def sar1_interrupt_def Cy_SAR_ClearInterrupt_def Let_def and.assoc)

theorem handler_sets_flag_on_end_of_scan_witness:
  "sar0_isr_set (sar0_interrupt demo_platform (init\<lparr>sar0_intr := 1\<rparr>))
   \<and> \<not> sar0_isr_set (sar0_interrupt demo_platform (init\<lparr>sar0_intr := 2\<rparr>))
   \<and> sar0_intr (sar0_interrupt demo_platform (init\<lparr>sar0_intr := 1\<rparr>)) AND 7 = 0
   \<and> sar0_intr (sar0_interrupt demo_platform (init\<lparr>sar0_intr := 2\<rparr>)) AND 7 = 0
   \<and> sar1_isr_set (sar1_interrupt demo_platform (init\<lparr>sar1_intr := 5\<rparr>))
   \<and> \<not> sar1_isr_set (sar1_interrupt demo_platform (init\<lparr>sar1_intr := 6\<rparr>))"
  using handler_sets_flag_on_end_of_scan[of demo_platform "init\<lparr>sar0_intr := 1\<rparr>"]
    handler_sets_flag_on_end_of_scan[of demo_platform "init\<lparr>sar0_intr := 2\<rparr>"]
    handler_sets_flag_on_end_of_scan[of demo_platform "init\<lparr>sar1_intr := 5\<rparr>"]
    handler_sets_flag_on_end_of_scan[of demo_platform "init\<lparr>sar1_intr := 6\<rparr>"]
  by (simp add: init_def demo_platform_def)

text \<open>
  C8. A handler changes nothing but the flag and the interrupt status of its own unit: the
  handler of unit 0 leaves \<open>sar1_isr_set\<close> as it was and the handler of unit 1 leaves
  \<open>sar0_isr_set\<close> as it was; a handler never turns its own flag off. A flag is
  turned off by the main loop only, at line 167 or 168, and the main loop comes to line 167
  only from the test of line 161 with both flags set, and to line 168 only from line 167.
\<close>

theorem single_writer_per_flag:
  "sar0_interrupt p s
     = s\<lparr>sar0_isr_set := sar0_isr_set (sar0_interrupt p s), sar0_intr := sar0_intr (sar0_interrupt p s)\<rparr>
   \<and> sar1_interrupt p s
     = s\<lparr>sar1_isr_set := sar1_isr_set (sar1_interrupt p s), sar1_intr := sar1_intr (sar1_interrupt p s)\<rparr>
   \<and> sar1_isr_set (sar0_interrupt p s) = sar1_isr_set s
   \<and> sar0_isr_set (sar1_interrupt p s) = sar0_isr_set s
   \<and> (sar0_isr_set s \<longrightarrow> sar0_isr_set (sar0_interrupt p s))
   \<and> (sar1_isr_set s \<longrightarrow> sar1_isr_set (sar1_interrupt p s))
   \<and> (sar0_isr_set s \<and> \<not> sar0_isr_set (step p e s) \<longrightarrow> e = Main \<and> pc s = Clear0_167)
   \<and> (sar1_isr_set s \<and> \<not> sar1_isr_set (step p e s) \<longrightarrow> e = Main \<and> pc s = Clear1_168)
   \<and> (pc (step p e s) = Clear0_167 \<and> pc s \<noteq> Clear0_167 \<longrightarrow>
        e = Main \<and> pc s = Gate_161 \<and> sar0_isr_set s \<and> sar1_isr_set s)
   \<and> (pc (step p e s) = Clear1_168 \<and> pc s \<noteq> Clear1_168 \<longrightarrow> e = Main \<and> pc s = Clear0_167)"
  by (cases e; cases "pc s") (simp_all add: step_defs Let_def)

theorem single_writer_per_flag_witness:
  "sar0_isr_set (init\<lparr>sar0_isr_set := True, sar1_isr_set := True, pc := Clear0_167\<rparr>)
   \<and> \<not> sar0_isr_set
        (step demo_platform Main (init\<lparr>sar0_isr_set := True, sar1_isr_set := True, pc := Clear0_167\<rparr>))
   \<and> pc (step demo_platform Main (init\<lparr>sar0_isr_set := True, sar1_isr_set := True, pc := Gate_161\<rparr>))
        = Clear0_167
   \<and> pc (step demo_platform Main (init\<lparr>sar1_isr_set := True, pc := Gate_161\<rparr>)) = Sleep_163
   \<and> sar1_isr_set (sar0_interrupt demo_platform (init\<lparr>sar1_isr_set := True, sar0_intr := 1\<rparr>))
   \<and> \<not> sar1_isr_set (sar0_interrupt demo_platform (init\<lparr>sar0_intr := 1\<rparr>))
   \<and> pc (step demo_platform Main (init\<lparr>sar0_isr_set := True, sar1_isr_set := True, pc := Clear0_167\<rparr>))
        = Clear1_168
   \<and> sar1_isr_set (init\<lparr>sar1_isr_set := True, pc := Clear1_168\<rparr>)
   \<and> \<not> sar1_isr_set (step demo_platform Main (init\<lparr>sar1_isr_set := True, pc := Clear1_168\<rparr>))
   \<and> sar0_isr_set (sar0_interrupt demo_platform (init\<lparr>sar0_isr_set := True, sar0_intr := 2\<rparr>))
   \<and> sar1_isr_set (sar1_interrupt demo_platform (init\<lparr>sar1_isr_set := True, sar1_intr := 2\<rparr>))"
  using single_writer_per_flag[of demo_platform
      "init\<lparr>sar0_isr_set := True, sar1_isr_set := True, pc := Clear0_167\<rparr>" Main]
    single_writer_per_flag[of demo_platform
      "init\<lparr>sar0_isr_set := True, sar1_isr_set := True, pc := Gate_161\<rparr>" Main]
    single_writer_per_flag[of demo_platform "init\<lparr>sar1_isr_set := True, sar0_intr := 1\<rparr>" Main]
    single_writer_per_flag[of demo_platform "init\<lparr>sar0_intr := 1\<rparr>" Main]
    single_writer_per_flag[of demo_platform "init\<lparr>sar1_isr_set := True, pc := Clear1_168\<rparr>" Main]
    single_writer_per_flag[of demo_platform "init\<lparr>sar0_isr_set := True, sar0_intr := 2\<rparr>" Main]
    single_writer_per_flag[of demo_platform "init\<lparr>sar1_isr_set := True, sar1_intr := 2\<rparr>" Main]
  by (simp add: eval_defs)

section \<open>Order of the stages\<close>

lemma stage_step:
  "stage_of (pc (step p e s)) = stage_of (pc s)
   \<or> e = Main \<and>
     (stage_of (pc s) = Draining \<and> stage_of (pc (step p e s)) = Waiting \<and> \<not> uart_tx_active s
      \<or> stage_of (pc s) = Waiting \<and> stage_of (pc (step p e s)) = Processing
          \<and> sar0_isr_set s \<and> sar1_isr_set s
      \<or> stage_of (pc s) = Processing \<and> stage_of (pc (step p e s)) = Draining)"
  by (cases e; cases "pc s") (simp_all add: step_defs Let_def)

lemma stage_step_next:
  "stage_of (pc (step p e s)) = stage_of (pc s)
   \<or> stage_of (pc (step p e s)) = next_stage (stage_of (pc s))"
  using stage_step[of p e s] by auto

lemma stage_trace_head: "\<exists>xs. stage_trace p es s = stage_of (pc s) # xs"
  by (cases es) simp_all

lemma in_order_stage_trace: "in_order (stage_trace p es s)"
proof (induction es arbitrary: s)
  case Nil
  show ?case by simp
next
  case (Cons e es)
  obtain xs where xs: "stage_trace p es (step p e s) = stage_of (pc (step p e s)) # xs"
    using stage_trace_head by blast
  show ?case
    using Cons.IH[of "step p e s"] stage_step_next[of p e s] by (simp add: xs)
qed

text \<open>
  C7. An iteration goes through its stages in the order drain, wait, process: every event
  leaves the stage as it is or moves it to the next one; the loop leaves the drain of line
  158 for the wait only when the UART is no longer transmitting, leaves the wait of lines
  161 to 164 for the processing only when the test finds both flags set, and comes back to
  the drain from the end of the processing. The loop is entered at the drain.
\<close>

theorem drain_then_wait_then_process:
  "(stage_of (pc (step p e s)) = stage_of (pc s)
    \<or> e = Main \<and>
      (stage_of (pc s) = Draining \<and> stage_of (pc (step p e s)) = Waiting \<and> \<not> uart_tx_active s
       \<or> stage_of (pc s) = Waiting \<and> stage_of (pc (step p e s)) = Processing
           \<and> sar0_isr_set s \<and> sar1_isr_set s
       \<or> stage_of (pc s) = Processing \<and> stage_of (pc (step p e s)) = Draining))
   \<and> in_order (stage_trace p es s)
   \<and> stage_of (pc init) = Draining"
  using stage_step[of p e s] in_order_stage_trace[of p es s] by (simp add: init_def)

theorem drain_then_wait_then_process_witness:
  "stage_trace demo_platform
     [Main, Uart_idle, Main, Main, Sar0_hw 1 100, Sar0_irq, Sar1_hw 1 200, Sar1_irq, Main, Main,
      Main, Main, Main, Main, Main, Main, Main, Main, Main, Main] init
     = [Draining, Draining, Draining, Waiting, Waiting, Waiting, Waiting, Waiting, Waiting, Waiting,
        Processing, Processing, Processing, Processing, Processing, Processing, Processing,
        Processing, Processing, Draining, Draining]
   \<and> in_order (stage_trace demo_platform
     [Main, Uart_idle, Main, Main, Sar0_hw 1 100, Sar0_irq, Sar1_hw 1 200, Sar1_irq, Main, Main,
      Main, Main, Main, Main, Main, Main, Main, Main, Main, Main] init)
   \<and> stage_of (pc init) = Draining"
  using drain_then_wait_then_process[of demo_platform Main init
     "[Main, Uart_idle, Main, Main, Sar0_hw 1 100, Sar0_irq, Sar1_hw 1 200, Sar1_irq, Main, Main,
      Main, Main, Main, Main, Main, Main, Main, Main, Main, Main]"]
  by (simp add: eval_defs)

section \<open>The gate and the completion signals\<close>

lemma gate_inv_step:
  assumes "gate_inv s g" and "\<not> overwritten p e s"
  shows "gate_inv (step p e s)
           (if gate_opens e s then (False, False)
            else (fst g \<or> eos0_handled p e s, snd g \<or> eos1_handled p e s))"
  using assms
  by (cases e; cases "pc s"; cases g)
     (auto simp: gate_inv_def overwritten_def obs_defs step_defs Let_def)

lemma gate_inv_run:
  "gate_inv s g \<Longrightarrow> none_overwritten p evs s \<Longrightarrow>
     gate_inv (run p evs s) (signalled_since_open p evs s g)"
proof (induction evs arbitrary: s g)
  case Nil
  then show ?case by simp
next
  case (Cons e es)
  from Cons.prems have "gate_inv (step p e s)
           (if gate_opens e s then (False, False)
            else (fst g \<or> eos0_handled p e s, snd g \<or> eos1_handled p e s))"
    by (intro gate_inv_step) simp_all
  moreover from Cons.prems have "none_overwritten p es (step p e s)" by simp
  ultimately show ?case
    using Cons.IH by simp
qed

lemma gate_inv_init: "gate_inv init (False, False)"
  by (simp add: gate_inv_def init_def)

lemma count_inv_step:
  assumes "count_inv s n c0 c1"
  shows "count_inv (step p e s) (n + (if gate_opens e s then 1 else 0))
           (c0 + (if eos0_handled p e s then 1 else 0)) (c1 + (if eos1_handled p e s then 1 else 0))"
  using assms
  by (cases e; cases "pc s")
     (auto simp: count_inv_def obs_defs step_defs Let_def)

lemma count_inv_run:
  "count_inv s n c0 c1 \<Longrightarrow>
     count_inv (run p evs s) (n + gate_openings p evs s)
       (c0 + eos0_count p evs s) (c1 + eos1_count p evs s)"
proof (induction evs arbitrary: s n c0 c1)
  case Nil
  then show ?case by simp
next
  case (Cons e es)
  from Cons.IH[OF count_inv_step[OF Cons.prems, of p e]] show ?case
    by (simp add: add.assoc)
qed

lemma gate_openings_le:
  "gate_openings p evs init \<le> eos0_count p evs init
   \<and> gate_openings p evs init \<le> eos1_count p evs init"
proof -
  have "count_inv init 0 0 0" by (simp add: count_inv_def init_def)
  from count_inv_run[OF this, of p evs] show ?thesis
    by (auto simp: count_inv_def split: if_splits)
qed

text \<open>
  C2, as amended. Take any sequence of events from the entry of the loop in which no
  completion signal is overwritten, that is, no handler sees end of scan between the passing
  test of line 161 and the statement that clears the flag of its unit. Then the next
  statement of the main loop opens the gate if and only if the loop is at the test of line
  161 and the completion signals of both units have been handled since the last gate opening,
  in whatever order. In every sequence, overwritten signals or not, the gate has opened at
  most as many times as either unit has signalled.
\<close>

theorem gate_opens_iff_both_signalled:
  "(none_overwritten p evs init \<longrightarrow>
      (gate_opens Main (run p evs init) \<longleftrightarrow>
         pc (run p evs init) = Gate_161
         \<and> signalled_since_open p evs init (False, False) = (True, True)))
   \<and> gate_openings p evs init \<le> eos0_count p evs init
   \<and> gate_openings p evs init \<le> eos1_count p evs init"
proof -
  have "gate_opens Main (run p evs init) \<longleftrightarrow>
         pc (run p evs init) = Gate_161
         \<and> signalled_since_open p evs init (False, False) = (True, True)"
    if "none_overwritten p evs init"
  proof -
    have "gate_inv (run p evs init) (signalled_since_open p evs init (False, False))"
      using gate_inv_init that by (rule gate_inv_run)
    then show ?thesis
      by (auto simp: gate_inv_def gate_opens_def split: if_splits)
  qed
  then show ?thesis
    using gate_openings_le[of p evs] by blast
qed

theorem gate_opens_iff_both_signalled_witness:
  "none_overwritten demo_platform
     [Uart_idle, Main, Sar1_hw 1 200, Sar1_irq, Sar0_hw 1 100, Sar0_irq] init
   \<and> signalled_since_open demo_platform
     [Uart_idle, Main, Sar1_hw 1 200, Sar1_irq, Sar0_hw 1 100, Sar0_irq] init (False, False)
       = (True, True)
   \<and> pc (run demo_platform
     [Uart_idle, Main, Sar1_hw 1 200, Sar1_irq, Sar0_hw 1 100, Sar0_irq] init) = Gate_161
   \<and> gate_opens Main (run demo_platform
     [Uart_idle, Main, Sar1_hw 1 200, Sar1_irq, Sar0_hw 1 100, Sar0_irq] init)"
  using gate_opens_iff_both_signalled[of demo_platform
     "[Uart_idle, Main, Sar1_hw 1 200, Sar1_irq, Sar0_hw 1 100, Sar0_irq]"]
  by (simp add: eval_defs overwritten_def)

text \<open>
  C2 as stated fails. The gate opens on a first pair of signals; before the main loop
  executes line 167 the two units signal again and both handlers run; lines 167 and 168 then
  clear both flags. Back at the test of line 161, both units have signalled since the last
  gate opening, the gate does not open, and it has opened once for two pairs.
\<close>

theorem gate_misses_pair_counterexample:
  "signalled_since_open demo_platform
     [Uart_idle, Main, Sar0_hw 1 100, Sar0_irq, Sar1_hw 1 200, Sar1_irq, Main,
      Sar0_hw 1 300, Sar0_irq, Sar1_hw 1 400, Sar1_irq,
      Main, Main, Main, Main, Main, Main, Main, Main, Main, Uart_idle, Main] init (False, False)
       = (True, True)
   \<and> pc (run demo_platform
     [Uart_idle, Main, Sar0_hw 1 100, Sar0_irq, Sar1_hw 1 200, Sar1_irq, Main,
      Sar0_hw 1 300, Sar0_irq, Sar1_hw 1 400, Sar1_irq,
      Main, Main, Main, Main, Main, Main, Main, Main, Main, Uart_idle, Main] init) = Gate_161
   \<and> \<not> gate_opens Main (run demo_platform
     [Uart_idle, Main, Sar0_hw 1 100, Sar0_irq, Sar1_hw 1 200, Sar1_irq, Main,
      Sar0_hw 1 300, Sar0_irq, Sar1_hw 1 400, Sar1_irq,
      Main, Main, Main, Main, Main, Main, Main, Main, Main, Uart_idle, Main] init)
   \<and> gate_openings demo_platform
     [Uart_idle, Main, Sar0_hw 1 100, Sar0_irq, Sar1_hw 1 200, Sar1_irq, Main,
      Sar0_hw 1 300, Sar0_irq, Sar1_hw 1 400, Sar1_irq,
      Main, Main, Main, Main, Main, Main, Main, Main, Main, Uart_idle, Main] init = 1
   \<and> eos0_count demo_platform
     [Uart_idle, Main, Sar0_hw 1 100, Sar0_irq, Sar1_hw 1 200, Sar1_irq, Main,
      Sar0_hw 1 300, Sar0_irq, Sar1_hw 1 400, Sar1_irq,
      Main, Main, Main, Main, Main, Main, Main, Main, Main, Uart_idle, Main] init = 2
   \<and> eos1_count demo_platform
     [Uart_idle, Main, Sar0_hw 1 100, Sar0_irq, Sar1_hw 1 200, Sar1_irq, Main,
      Sar0_hw 1 300, Sar0_irq, Sar1_hw 1 400, Sar1_irq,
      Main, Main, Main, Main, Main, Main, Main, Main, Main, Uart_idle, Main] init = 2"
  by (simp add: eval_defs)

lemma flag0_step:
  "pc s \<noteq> Clear0_167 \<Longrightarrow> sar0_isr_set (step p e s) = (sar0_isr_set s \<or> eos0_handled p e s)"
  by (cases e; cases "pc s") (auto simp: obs_defs step_defs Let_def)

lemma flag1_step:
  "pc s \<noteq> Clear1_168 \<Longrightarrow> sar1_isr_set (step p e s) = (sar1_isr_set s \<or> eos1_handled p e s)"
  by (cases e; cases "pc s") (auto simp: obs_defs step_defs Let_def)

lemma pc_step_not_clear0:
  "pc s \<noteq> Clear0_167 \<Longrightarrow> \<not> gate_opens e s \<Longrightarrow> pc (step p e s) \<noteq> Clear0_167"
  by (cases e; cases "pc s") (auto simp: obs_defs step_defs Let_def)

lemma pc_step_not_clear1:
  "pc s \<noteq> Clear0_167 \<Longrightarrow> pc s \<noteq> Clear1_168 \<Longrightarrow> pc (step p e s) \<noteq> Clear1_168"
  by (cases e; cases "pc s") (auto simp: obs_defs step_defs Let_def)

lemma flag0_run:
  "pc s \<noteq> Clear0_167 \<Longrightarrow> gate_openings p evs s = 0 \<Longrightarrow>
     sar0_isr_set (run p evs s) = (sar0_isr_set s \<or> 0 < eos0_count p evs s)"
proof (induction evs arbitrary: s)
  case Nil
  then show ?case by simp
next
  case (Cons e es)
  from Cons.prems have no: "\<not> gate_opens e s" and rest: "gate_openings p es (step p e s) = 0"
    by (auto split: if_splits)
  have "pc (step p e s) \<noteq> Clear0_167"
    using Cons.prems(1) no by (rule pc_step_not_clear0)
  from Cons.IH[OF this rest] show ?case
    using flag0_step[OF Cons.prems(1), of p e] by auto
qed

lemma flag1_run:
  "pc s \<noteq> Clear0_167 \<Longrightarrow> pc s \<noteq> Clear1_168 \<Longrightarrow> gate_openings p evs s = 0 \<Longrightarrow>
     sar1_isr_set (run p evs s) = (sar1_isr_set s \<or> 0 < eos1_count p evs s)"
proof (induction evs arbitrary: s)
  case Nil
  then show ?case by simp
next
  case (Cons e es)
  from Cons.prems have no: "\<not> gate_opens e s" and rest: "gate_openings p es (step p e s) = 0"
    by (auto split: if_splits)
  have a: "pc (step p e s) \<noteq> Clear0_167"
    using Cons.prems(1) no by (rule pc_step_not_clear0)
  have b: "pc (step p e s) \<noteq> Clear1_168"
    using Cons.prems(1,2) by (rule pc_step_not_clear1)
  from Cons.IH[OF a b rest] show ?case
    using flag1_step[OF Cons.prems(2), of p e] by auto
qed

lemma both_cleared:
  "pc s = Clear0_167 \<Longrightarrow>
     pc (run p [Main, Main] s) = Get0_171
     \<and> \<not> sar0_isr_set (run p [Main, Main] s) \<and> \<not> sar1_isr_set (run p [Main, Main] s)"
  by (simp add: step_defs)

text \<open>
  C3, as amended. The flags are cleared by two statements after the test, with the
  interrupts enabled. When lines 167 and 168 execute with no handler in between, both flags
  read false afterwards. A completion signal handled once the flag of its unit has been
  cleared (for unit 0 from line 168 on, for unit 1 from line 171 on: while the results are
  read, converted, output and printed, during the drain and during the wait) sets the flag,
  and the flag stays set until the next gate opening. Nothing is promised for a signal
  handled between the passing test and the clearing of its flag.
\<close>

theorem signal_kept_after_clear:
  "(pc s = Clear0_167 \<longrightarrow>
      pc (run p [Main, Main] s) = Get0_171
      \<and> \<not> sar0_isr_set (run p [Main, Main] s) \<and> \<not> sar1_isr_set (run p [Main, Main] s))
   \<and> (pc s \<noteq> Clear0_167 \<and> gate_openings p evs s = 0 \<longrightarrow>
        sar0_isr_set (run p evs s) = (sar0_isr_set s \<or> 0 < eos0_count p evs s))
   \<and> (pc s \<noteq> Clear0_167 \<and> pc s \<noteq> Clear1_168 \<and> gate_openings p evs s = 0 \<longrightarrow>
        sar1_isr_set (run p evs s) = (sar1_isr_set s \<or> 0 < eos1_count p evs s))"
proof (intro conjI impI)
  assume "pc s = Clear0_167"
  then show "pc (run p [Main, Main] s) = Get0_171"
    and "\<not> sar0_isr_set (run p [Main, Main] s)"
    and "\<not> sar1_isr_set (run p [Main, Main] s)"
    using both_cleared[of s p] by simp_all
next
  assume "pc s \<noteq> Clear0_167 \<and> gate_openings p evs s = 0"
  then show "sar0_isr_set (run p evs s) = (sar0_isr_set s \<or> 0 < eos0_count p evs s)"
    using flag0_run[of s p evs] by simp
next
  assume "pc s \<noteq> Clear0_167 \<and> pc s \<noteq> Clear1_168 \<and> gate_openings p evs s = 0"
  then show "sar1_isr_set (run p evs s) = (sar1_isr_set s \<or> 0 < eos1_count p evs s)"
    using flag1_run[of s p evs] by simp
qed

theorem signal_kept_after_clear_witness:
  "pc (run demo_platform [Main, Main]
        (init\<lparr>sar0_isr_set := True, sar1_isr_set := True, pc := Clear0_167\<rparr>)) = Get0_171
   \<and> \<not> sar0_isr_set (run demo_platform [Main, Main]
        (init\<lparr>sar0_isr_set := True, sar1_isr_set := True, pc := Clear0_167\<rparr>))
   \<and> \<not> sar1_isr_set (run demo_platform [Main, Main]
        (init\<lparr>sar0_isr_set := True, sar1_isr_set := True, pc := Clear0_167\<rparr>))
   \<and> gate_openings demo_platform [Sar0_hw 1 300, Sar0_irq, Main, Sar1_hw 1 400, Sar1_irq, Main]
        (init\<lparr>pc := Get0_171\<rparr>) = 0
   \<and> eos0_count demo_platform [Sar0_hw 1 300, Sar0_irq, Main, Sar1_hw 1 400, Sar1_irq, Main]
        (init\<lparr>pc := Get0_171\<rparr>) = 1
   \<and> sar0_isr_set (run demo_platform [Sar0_hw 1 300, Sar0_irq, Main, Sar1_hw 1 400, Sar1_irq, Main]
        (init\<lparr>pc := Get0_171\<rparr>))
   \<and> sar1_isr_set (run demo_platform [Sar0_hw 1 300, Sar0_irq, Main, Sar1_hw 1 400, Sar1_irq, Main]
        (init\<lparr>pc := Get0_171\<rparr>))"
  using signal_kept_after_clear[of
      "init\<lparr>sar0_isr_set := True, sar1_isr_set := True, pc := Clear0_167\<rparr>" demo_platform "[]"]
    signal_kept_after_clear[of "init\<lparr>pc := Get0_171\<rparr>" demo_platform
      "[Sar0_hw 1 300, Sar0_irq, Main, Sar1_hw 1 400, Sar1_irq, Main]"]
  by (simp add: eval_defs)

text \<open>
  C3 as stated fails. The gate opens (the loop is at line 167); unit 0 signals again and its
  handler runs, which is after the gate check and before the next wait; line 167 then clears
  the flag. When the loop is back at the test of line 161 the flag of unit 0 reads false:
  the signal is lost.
\<close>

theorem signal_lost_counterexample:
  "pc (run demo_platform
        [Uart_idle, Main, Sar0_hw 1 100, Sar0_irq, Sar1_hw 1 200, Sar1_irq, Main] init) = Clear0_167
   \<and> eos0_count demo_platform [Sar0_hw 1 300, Sar0_irq]
        (run demo_platform
          [Uart_idle, Main, Sar0_hw 1 100, Sar0_irq, Sar1_hw 1 200, Sar1_irq, Main] init) = 1
   \<and> pc (run demo_platform
        [Uart_idle, Main, Sar0_hw 1 100, Sar0_irq, Sar1_hw 1 200, Sar1_irq, Main,
         Sar0_hw 1 300, Sar0_irq,
         Main, Main, Main, Main, Main, Main, Main, Main, Main, Uart_idle, Main] init) = Gate_161
   \<and> \<not> sar0_isr_set (run demo_platform
        [Uart_idle, Main, Sar0_hw 1 100, Sar0_irq, Sar1_hw 1 200, Sar1_irq, Main,
         Sar0_hw 1 300, Sar0_irq,
         Main, Main, Main, Main, Main, Main, Main, Main, Main, Uart_idle, Main] init)
   \<and> gate_openings demo_platform
        [Uart_idle, Main, Sar0_hw 1 100, Sar0_irq, Sar1_hw 1 200, Sar1_irq, Main,
         Sar0_hw 1 300, Sar0_irq,
         Main, Main, Main, Main, Main, Main, Main, Main, Main, Uart_idle, Main] init = 1"
  by (simp add: eval_defs)

section \<open>The telemetry line\<close>

lemma is_digit_digit_char: "d < 10 \<Longrightarrow> is_digit (digit_char d)"
  by (simp add: is_digit_def digit_char_def)

lemma not_is_digit_minus: "\<not> is_digit CHR ''-''"
  by (simp add: is_digit_def)

lemma dec_digits_digits: "list_all is_digit (dec_digits n)"
proof (induction n rule: dec_digits.induct)
  case (1 n)
  show ?case
  proof (cases "n < 10")
    case True
    then show ?thesis
      by (subst dec_digits.simps) (simp add: is_digit_digit_char)
  next
    case False
    then show ?thesis
      using "1.IH" by (subst dec_digits.simps) (simp add: is_digit_digit_char)
  qed
qed

lemma dec_digits_nonempty: "dec_digits n \<noteq> []"
  by (subst dec_digits.simps) simp

lemma f2_body_text:
  assumes "list_all is_digit ds" and "ds \<noteq> []" and "is_digit d1" and "is_digit d2"
  shows "is_f2_text (ds @ ''.'' @ [d1, d2])" and "is_f2_text (''-'' @ ds @ ''.'' @ [d1, d2])"
proof -
  obtain c cs where ds: "ds = c # cs" using assms(2) by (cases ds) simp_all
  have c: "c \<noteq> CHR ''-''" using assms(1) not_is_digit_minus by (auto simp: ds)
  have n: "length (ds @ ''.'' @ [d1, d2]) - 3 = length ds" by simp
  have body: "4 \<le> length (ds @ ''.'' @ [d1, d2])
      \<and> list_all is_digit (take (length (ds @ ''.'' @ [d1, d2]) - 3) (ds @ ''.'' @ [d1, d2]))
      \<and> (ds @ ''.'' @ [d1, d2]) ! (length (ds @ ''.'' @ [d1, d2]) - 3) = CHR ''.''
      \<and> is_digit ((ds @ ''.'' @ [d1, d2]) ! (length (ds @ ''.'' @ [d1, d2]) - 2))
      \<and> is_digit ((ds @ ''.'' @ [d1, d2]) ! (length (ds @ ''.'' @ [d1, d2]) - 1))"
    using assms by (simp add: ds nth_append)
  show "is_f2_text (ds @ ''.'' @ [d1, d2])"
    unfolding is_f2_text_def Let_def using body c by (simp add: ds)
  show "is_f2_text (''-'' @ ds @ ''.'' @ [d1, d2])"
    unfolding is_f2_text_def Let_def using body by simp
qed

lemma fmt_f2_text: "is_f2_text (fmt_f2 x)"
proof -
  define n where "n = nat (round_half_even (\<bar>x\<bar> * 100))"
  have d1: "is_digit (digit_char (n mod 100 div 10))"
    by (rule is_digit_digit_char) (simp add: div_less_iff_less_mult)
  have d2: "is_digit (digit_char (n mod 10))"
    by (rule is_digit_digit_char) simp
  note t = f2_body_text[OF dec_digits_digits dec_digits_nonempty d1 d2, of "n div 100"]
  show ?thesis
    unfolding fmt_f2_def Let_def n_def[symmetric] using t by simp
qed

lemma telemetry_line_eq:
  "telemetry_line v0 v1
     = ''SAR0 input: '' @ fmt_f2 v0 @ ''V '' @ [CHR 0x09] @ '' SAR1 input: '' @ fmt_f2 v1
       @ ''V'' @ [CHR 0x0D, CHR 0x0A]"
  by (simp add: telemetry_line_def telemetry_format_def)

lemma fmt_f2_one: "fmt_f2 1 = ''1.00''"
  by (simp add: fmt_f2_def round_half_even_def digit_char_def char_of_def bit_Suc_0_iff)

lemma fmt_f2_two: "fmt_f2 2 = ''2.00''"
  by code_simp

text \<open>
  One iteration on voltages of 1 V and 2 V: the code 744 goes to the CTDAC and the line
  with \<open>1.00V\<close> and \<open>2.00V\<close> to the UART.
\<close>

lemma example_cycle:
  "ctdac_values (run (demo_platform\<lparr>Cy_SAR_CountsTo_Volts := (\<lambda>u c. if u = 0 then 1 else 2)\<rparr>)
      [Uart_idle, Main, Sar0_hw 1 1241, Sar0_irq, Sar1_hw 1 2482, Sar1_irq,
       Main, Main, Main, Main, Main, Main, Main, Main, Main, Main] init) = [Some 744]
   \<and> uart_lines (run (demo_platform\<lparr>Cy_SAR_CountsTo_Volts := (\<lambda>u c. if u = 0 then 1 else 2)\<rparr>)
      [Uart_idle, Main, Sar0_hw 1 1241, Sar0_irq, Sar1_hw 1 2482, Sar1_irq,
       Main, Main, Main, Main, Main, Main, Main, Main, Main, Main] init)
     = [''SAR0 input: 1.00V '' @ [CHR 0x09] @ '' SAR1 input: 2.00V'' @ [CHR 0x0D, CHR 0x0A]]"
proof -
  have a: "f32_mul 1 2 = 1 * 2" by (rule f32_mul_exact[of _ _ 1 1]) simp_all
  have b: "f32_mul 2 372 = 2 * 372" by (rule f32_mul_exact[of _ _ 744 0]) simp_all
  have c: "ctdac_arg (f32_mul 1 2) = Some 744"
    by (simp add: ctdac_arg_def SCALING_FACTOR_def a b float_to_int_def c_trunc_def)
  show ?thesis
    by (simp add: eval_defs c telemetry_line_eq fmt_f2_one fmt_f2_two)
qed

text \<open>
  C9. The line handed to the UART at line 184 is the text \<open>SAR0 input: \<close>, the first
  voltage, \<open>V\<close>, a space, a tab, a space, \<open>SAR1 input: \<close>, the second voltage, \<open>V\<close>,
  carriage return and line feed; each voltage is printed with an optional minus sign, at
  least one digit, a point and exactly two digits. No other statement of the loop prints.
\<close>

theorem telemetry_line_format:
  "telemetry_line v0 v1
     = ''SAR0 input: '' @ fmt_f2 v0 @ ''V '' @ [CHR 0x09] @ '' SAR1 input: '' @ fmt_f2 v1
       @ ''V'' @ [CHR 0x0D, CHR 0x0A]
   \<and> is_f2_text (fmt_f2 v0) \<and> is_f2_text (fmt_f2 v1)
   \<and> uart_lines (main_step p s)
       = (if pc s = Printf_184 then telemetry_line (resultV_0 s) (resultV_1 s) # uart_lines s
          else uart_lines s)"
proof -
  have "uart_lines (main_step p s)
       = (if pc s = Printf_184 then telemetry_line (resultV_0 s) (resultV_1 s) # uart_lines s
          else uart_lines s)"
    by (cases "pc s") (simp_all add: main_step_def)
  then show ?thesis
    using telemetry_line_eq[of v0 v1] fmt_f2_text[of v0] fmt_f2_text[of v1] by simp
qed

theorem telemetry_line_format_witness:
  "telemetry_line 1 2
     = ''SAR0 input: 1.00V '' @ [CHR 0x09] @ '' SAR1 input: 2.00V'' @ [CHR 0x0D, CHR 0x0A]
   \<and> is_f2_text ''1.00'' \<and> is_f2_text ''2.00''
   \<and> uart_lines (main_step demo_platform (init\<lparr>pc := Printf_184, resultV_0 := 1, resultV_1 := 2\<rparr>))
       = [''SAR0 input: 1.00V '' @ [CHR 0x09] @ '' SAR1 input: 2.00V'' @ [CHR 0x0D, CHR 0x0A]]"
  using telemetry_line_format[of 1 2 demo_platform
      "init\<lparr>pc := Printf_184, resultV_0 := 1, resultV_1 := 2\<rparr>"]
  by (simp add: fmt_f2_one fmt_f2_two init_def)

section \<open>The mapper of the specification\<close>

text \<open>
  C6. For a valid calibration the mapper of the specification takes the raw count 0 to 0
  and the full-scale code count to the full-scale voltage, exactly, and it is additive and
  homogeneous in the raw count.
\<close>

theorem rawToPhysical_linear:
  assumes "valid_calibration cal"
  shows "rawToPhysical 0 cal = 0
    \<and> rawToPhysical (fullScaleCodeCount cal) cal = fullScaleVoltage cal
    \<and> rawToPhysical (a + b) cal = rawToPhysical a cal + rawToPhysical b cal
    \<and> rawToPhysical (k * a) cal = of_int k * rawToPhysical a cal"
  using assms by (simp add: rawToPhysical_def valid_calibration_def add_divide_distrib distrib_right)

theorem rawToPhysical_linear_witness:
  "valid_calibration \<lparr>fullScaleVoltage = 33 / 10, fullScaleCodeCount = 4095\<rparr>
   \<and> rawToPhysical 0 \<lparr>fullScaleVoltage = 33 / 10, fullScaleCodeCount = 4095\<rparr> = 0
   \<and> rawToPhysical 4095 \<lparr>fullScaleVoltage = 33 / 10, fullScaleCodeCount = 4095\<rparr> = 33 / 10
   \<and> rawToPhysical (1000 + 241) \<lparr>fullScaleVoltage = 33 / 10, fullScaleCodeCount = 4095\<rparr>
     = rawToPhysical 1000 \<lparr>fullScaleVoltage = 33 / 10, fullScaleCodeCount = 4095\<rparr>
       + rawToPhysical 241 \<lparr>fullScaleVoltage = 33 / 10, fullScaleCodeCount = 4095\<rparr>"
  using rawToPhysical_linear[of "\<lparr>fullScaleVoltage = 33 / 10, fullScaleCodeCount = 4095\<rparr>" 1000 241 1]
  by (simp add: valid_calibration_def)

end
